theory Spec2Isabelle
  imports Complex_Main "HOL-Library.Multiset"
begin

section \<open>Python list operations used by the notebooks\<close>

text \<open>
  The notebooks build and read their lists with built-in list operations of Python:
  repetition \<^verbatim>\<open>xs * k\<close>, the prefix slice \<^verbatim>\<open>xs[:n]\<close>, the extended slice
  \<^verbatim>\<open>xs[start::step]\<close> and the subscript \<^verbatim>\<open>xs[i]\<close>. Python integers are unbounded, so counts
  are \<^typ>\<open>int\<close>; a non-positive repetition count gives the empty list, and a
  negative slice bound counts from the end of the list.
\<close>

definition py_repeat :: "'a list \<Rightarrow> int \<Rightarrow> 'a list" where
  "py_repeat xs k = concat (replicate (nat k) xs)"

definition py_slice_upto :: "'a list \<Rightarrow> int \<Rightarrow> 'a list" where
  "py_slice_upto xs n =
     (if 0 \<le> n then take (nat n) xs else take (nat (int (length xs) + n)) xs)"

text \<open>
  \<^verbatim>\<open>xs[start::step]\<close> for a start that is not negative and a positive step selects
  the positions \<^verbatim>\<open>range(start, len(xs), step)\<close>.
\<close>

definition slice_indices :: "nat \<Rightarrow> nat \<Rightarrow> nat \<Rightarrow> nat list" where
  "slice_indices n start step =
     filter (\<lambda>i. start \<le> i \<and> (i - start) mod step = 0) [0..<n]"

definition py_slice_step :: "'a list \<Rightarrow> nat \<Rightarrow> nat \<Rightarrow> 'a list" where
  "py_slice_step xs start step = map (\<lambda>i. xs ! i) (slice_indices (length xs) start step)"

section \<open>Exceptions and the objects of the definitions notebook\<close>

text \<open>
  The exceptions of Python that the notebooks can meet. \<open>ImportError\<close> stands for the
  class with its subclasses, as \<^verbatim>\<open>except ImportError\<close> reads it; \<open>LibraryError\<close>
  is any other exception raised inside an external library, with its name.
\<close>

datatype exn =
    ImportError
  | IndexError
  | ValueError
  | ZeroDivisionError
  | FileNotFoundError string
  | LibraryError string

text \<open>
  \<^verbatim>\<open>xs[i]\<close>: a negative index counts from the end; an index outside the list raises
  \<^verbatim>\<open>IndexError\<close>.
\<close>

definition py_getitem :: "'a list \<Rightarrow> int \<Rightarrow> exn + 'a" where
  "py_getitem xs i =
     (if 0 \<le> i \<and> i < int (length xs) then Inr (xs ! nat i)
      else if i < 0 \<and> - int (length xs) \<le> i then Inr (xs ! nat (int (length xs) + i))
      else Inl IndexError)"

text \<open>
  The single-site objects bound by the definitions notebook (cell 5 of
  \<^verbatim>\<open>00_intro.ipynb\<close>): the states \<open>mup\<close>, \<open>mdown\<close> and the operators
  \<open>mpx\<close>, \<open>mpy\<close>, \<open>mpz\<close>, \<open>muu\<close>, \<open>mdd\<close>, \<open>mid\<close>, all of the
  library's type \<^verbatim>\<open>MPArray\<close>, here the type variable \<open>'m\<close>.
\<close>

record 'm definitions =
  mup :: 'm
  mdown :: 'm
  mpx :: 'm
  mpy :: 'm
  mpz :: 'm
  muu :: 'm
  mdd :: 'm
  mid :: 'm

text \<open>
  The arithmetic of \<^verbatim>\<open>mpnum\<close> on \<^verbatim>\<open>MPArray\<close> objects is external to the
  repository, so it is a parameter: the tensor product of a sequence of objects
  (\<open>mp_chain\<close>), \<^verbatim>\<open>a + b\<close> and \<^verbatim>\<open>h * a\<close> for a float \<open>h\<close>. Float literals
  are read as real numbers.
\<close>

record 'm mparray_ops =
  mp_chain :: "'m list \<Rightarrow> 'm"
  mp_add :: "'m \<Rightarrow> 'm \<Rightarrow> 'm"
  mp_rmul :: "real \<Rightarrow> 'm \<Rightarrow> 'm"

text \<open>
  \<^verbatim>\<open>mp.chain\<close> itself: a chain needs at least one object, and the library raises
  \<^verbatim>\<open>ValueError\<close> on an empty sequence. The chains of cell 3 below are chains of two
  objects, written with \<open>mp_chain\<close> directly.
\<close>

definition chain :: "'m mparray_ops \<Rightarrow> 'm list \<Rightarrow> exn + 'm" where
  "chain L mpas = (if mpas = [] then Inl ValueError else Inr (mp_chain L mpas))"

section \<open>Hamiltonian terms (cell 3 of the time-evolution notebook)\<close>

text \<open>
  \<^verbatim>\<open>
  h_term = mp.chain((mpx, mpx)) + mp.chain((mpy, mpy)) + h * mp.chain((mpz, mid))
  h_terms = [h_term.copy() for _ in range(n_sites - 1)]
  h_terms[-1] += h * mp.chain((mid, mpz))
  \<close>
  The last line updates an object that a list holds, so objects live in a heap and the
  list holds references. A heap is the list of the contents of all objects made so far;
  a reference is a position in it.
\<close>

type_synonym 'm heap = "'m list"

definition new_obj :: "'m \<Rightarrow> 'm heap \<Rightarrow> nat \<times> 'm heap" where
  "new_obj v H = (length H, H @ [v])"

definition h_term_value :: "'m mparray_ops \<Rightarrow> 'm definitions \<Rightarrow> real \<Rightarrow> 'm" where
  "h_term_value L D h =
     mp_add L
       (mp_add L (mp_chain L [mpx D, mpx D]) (mp_chain L [mpy D, mpy D]))
       (mp_rmul L h (mp_chain L [mpz D, mid D]))"

definition boundary_value :: "'m mparray_ops \<Rightarrow> 'm definitions \<Rightarrow> real \<Rightarrow> 'm" where
  "boundary_value L D h = mp_rmul L h (mp_chain L [mid D, mpz D])"

text \<open>
  The comprehension \<^verbatim>\<open>[h_term.copy() for _ in range(k)]\<close>: each round makes a new
  object with the content of the object at reference \<open>r\<close>.
\<close>

fun copy_each :: "nat \<Rightarrow> nat \<Rightarrow> 'm heap \<Rightarrow> nat list \<times> 'm heap" where
  "copy_each r 0 H = ([], H)"
| "copy_each r (Suc k) H =
     (case new_obj (H ! r) H of (a, H1) \<Rightarrow>
      case copy_each r k H1 of (as, H2) \<Rightarrow> (a # as, H2))"

text \<open>
  \<^verbatim>\<open>refs[-1] += rhs\<close>. Reading \<^verbatim>\<open>refs[-1]\<close> of an empty list raises
  \<^verbatim>\<open>IndexError\<close>. Whether the library adds in place (\<^verbatim>\<open>__iadd__\<close>, the object
  itself changes) or returns a new object that the list then holds (\<^verbatim>\<open>__add__\<close>) is
  the library's choice: the flag \<open>inplace\<close>.
\<close>

definition iadd_last ::
  "'m mparray_ops \<Rightarrow> bool \<Rightarrow> nat list \<Rightarrow> 'm \<Rightarrow> 'm heap \<Rightarrow> exn + (nat list \<times> 'm heap)" where
  "iadd_last L inplace refs rhs H =
     (if refs = [] then Inl IndexError
      else if inplace then Inr (refs, H[last refs := mp_add L (H ! last refs) rhs])
      else (case new_obj (mp_add L (H ! last refs) rhs) H of
              (b, H1) \<Rightarrow> Inr (refs[length refs - 1 := b], H1)))"

definition h_terms_cell ::
  "'m mparray_ops \<Rightarrow> 'm definitions \<Rightarrow> bool \<Rightarrow> real \<Rightarrow> int \<Rightarrow> 'm heap
     \<Rightarrow> exn + (nat list \<times> 'm heap)" where
  "h_terms_cell L D inplace h n_sites H =
     (case new_obj (h_term_value L D h) H of (h_term, H1) \<Rightarrow>
      case copy_each h_term (nat (n_sites - 1)) H1 of (h_terms, H2) \<Rightarrow>
        iadd_last L inplace h_terms (boundary_value L D h) H2)"

section \<open>Initial state and even/odd evolution operators\<close>

text \<open>
  Cell 7 of the time-evolution notebook:
  \<^verbatim>\<open>psi_0 = mp.chain(([mup, mdown] * ((n_sites + 1) // 2))[:n_sites])\<close>.
  The list handed to \<^verbatim>\<open>mp.chain\<close> is \<open>psi_0_sites\<close>; Python's \<^verbatim>\<open>//\<close> is floor
  division, as \<open>div\<close> on \<^typ>\<open>int\<close> is.
\<close>

definition psi_0_sites :: "'m definitions \<Rightarrow> int \<Rightarrow> 'm list" where
  "psi_0_sites D n_sites =
     py_slice_upto (py_repeat [mup D, mdown D] ((n_sites + 1) div 2)) n_sites"

definition psi_0 :: "'m mparray_ops \<Rightarrow> 'm definitions \<Rightarrow> int \<Rightarrow> exn + 'm" where
  "psi_0 L D n_sites = chain L (psi_0_sites D n_sites)"

text \<open>
  Cell 10: \<^verbatim>\<open>h_evo_even = mp.chain(h_evos[0::2])\<close> and
  \<^verbatim>\<open>h_evo_odd = mp.chain(h_evos[1::2])\<close>.
\<close>

definition h_evo_even_ops :: "'a list \<Rightarrow> 'a list" where
  "h_evo_even_ops h_evos = py_slice_step h_evos 0 2"

definition h_evo_odd_ops :: "'a list \<Rightarrow> 'a list" where
  "h_evo_odd_ops h_evos = py_slice_step h_evos 1 2"

definition h_evo_even :: "'m mparray_ops \<Rightarrow> 'm list \<Rightarrow> exn + 'm" where
  "h_evo_even L h_evos = chain L (h_evo_even_ops h_evos)"

definition h_evo_odd :: "'m mparray_ops \<Rightarrow> 'm list \<Rightarrow> exn + 'm" where
  "h_evo_odd L h_evos = chain L (h_evo_odd_ops h_evos)"

section \<open>A symbolic instance of the library's arithmetic\<close>

text \<open>
  Expressions over named single-site objects: the arithmetic that builds an expression
  instead of computing it. It is used to run the definitions on concrete inputs.
\<close>

datatype mpo_expr =
    Single string
  | ChainE "mpo_expr list"
  | AddE mpo_expr mpo_expr
  | ScaleE real mpo_expr

definition expr_ops :: "mpo_expr mparray_ops" where
  "expr_ops = \<lparr>mp_chain = ChainE, mp_add = AddE, mp_rmul = ScaleE\<rparr>"

definition expr_defs :: "mpo_expr definitions" where
  "expr_defs = \<lparr>mup = Single ''mup'', mdown = Single ''mdown'', mpx = Single ''mpx'',
     mpy = Single ''mpy'', mpz = Single ''mpz'', muu = Single ''muu'',
     mdd = Single ''mdd'', mid = Single ''mid''\<rparr>"

section \<open>The external libraries as an environment\<close>

text \<open>
  Everything numerical is done by \<^verbatim>\<open>mpnum\<close>, \<^verbatim>\<open>numpy\<close> and \<^verbatim>\<open>scipy\<close>. The
  notebooks only sequence calls, so a call is a value of the type \<open>call\<close>: the function
  called with its arguments. Objects of the libraries (arrays, matrices, MPArrays,
  callables, and the floats that the libraries return) are the type variable \<open>'v\<close>.
\<close>

text \<open>
  \<^verbatim>\<open>b ** e\<close> on Python integers is an integer for \<open>e \<ge> 0\<close> and a float otherwise
  (the base is never zero here).
\<close>

datatype pynum = PyInt int | PyFloat real


text \<open>
  An operand of an arithmetic operator: a Python number or a library object. The
  operators on library objects, floats included, are methods of the libraries, so
  \<^verbatim>\<open>+\<close>, \<^verbatim>\<open>-\<close>, \<^verbatim>\<open>*\<close>, \<^verbatim>\<open>/\<close>, \<^verbatim>\<open>**\<close> and \<^verbatim>\<open>+=\<close> are calls. \<open>Getitem\<close>,
  \<open>Unpack\<close> and the division of two Python numbers are operations of Python itself;
  they are named only as the origin of an exception.
\<close>

datatype 'v operand = IntLit int | FloatLit real | ComplexLit complex | Val 'v

datatype 'v call =
    Magic string
  | Import string
  | Setrlimit int int int
  | Np_vector "complex list"
  | Np_matrix "complex list list"
  | Conj 'v
  | Outer 'v 'v
  | From_array 'v nat
  | Factory_eye nat int
  | Chain "'v list"
  | Copy 'v
  | Ranks 'v
  | Compress 'v string real
  | To_array_global 'v
  | Reshape 'v "pynum list"
  | Spa_eye pynum
  | Spa_kron 'v 'v
  | Plus_op "'v operand" "'v operand"
  | Minus_op "'v operand" "'v operand"
  | Times_op "'v operand" "'v operand"
  | Divide_op "'v operand" "'v operand"
  | Power_op "'v operand" "'v operand"
  | Iadd_op "'v operand" "'v operand"
  | To_array 'v
  | Ravel 'v
  | Expm_multiply 'v 'v
  | Linalg_norm 'v
  | Expm 'v
  | From_array_global 'v nat
  | Partialdot 'v 'v nat
  | Vdot 'v 'v
  | Abs_of 'v
  | Eigsh "'v operand" nat string
  | Local_sum "'v list"
  | Partial_eigsh nat string
  | Eig 'v nat nat 'v
  | Dot 'v 'v
  | Mp_norm 'v
  | Inner 'v 'v
  | Real_part 'v
  | Getitem int
  | Unpack nat

text \<open>
  The module \<^verbatim>\<open>resource\<close>, where the platform has it: the two constants the
  notebook reads.
\<close>

record resource_module =
  RLIMIT_AS :: int
  RLIM_INFINITY :: int

text \<open>
  What the libraries answer. A call returns or raises. Calls that return one object
  and calls that return a pair (the two eigensolvers) are answered by two functions.
  \<open>resource_import\<close> is the outcome of \<^verbatim>\<open>import resource\<close>.
\<close>

record 'v library =
  returns :: "'v call \<Rightarrow> exn + 'v"
  returns_pair :: "'v call \<Rightarrow> exn + 'v \<times> 'v"
  resource_import :: "exn + resource_module"

text \<open>
  What a run leaves behind: the calls made, in order; the exceptions raised, each with
  the call or operation that raised it; the lines printed, each line the list of the
  arguments of one \<^verbatim>\<open>print\<close>.
\<close>

datatype 'v item = Str string | Obj 'v | Objs "'v list"

record 'v world =
  calls :: "'v call list"
  raised :: "('v call \<times> exn) list"
  stdout :: "'v item list list"

text \<open>
  A piece of notebook code takes the world and gives its result, or the exception that
  ended it, and the world it leaves. \<open>bind_run\<close> is the sequencing of statements: an
  exception ends the sequence.
\<close>

type_synonym ('v, 'a) run = "'v world \<Rightarrow> (exn + 'a) \<times> 'v world"

definition unit_run :: "'a \<Rightarrow> ('v, 'a) run" where
  "unit_run a w = (Inr a, w)"

definition bind_run :: "('v, 'a) run \<Rightarrow> ('a \<Rightarrow> ('v, 'b) run) \<Rightarrow> ('v, 'b) run" where
  "bind_run m f w = (case m w of (Inl e, w1) \<Rightarrow> (Inl e, w1) | (Inr a, w1) \<Rightarrow> f a w1)"

definition log_call :: "'v call \<Rightarrow> (exn + 'a) \<Rightarrow> 'v world \<Rightarrow> 'v world" where
  "log_call c r w =
     (case r of
        Inl e \<Rightarrow> w\<lparr>calls := calls w @ [c], raised := raised w @ [(c, e)]\<rparr>
      | Inr a \<Rightarrow> w\<lparr>calls := calls w @ [c]\<rparr>)"

definition invoke :: "'v library \<Rightarrow> 'v call \<Rightarrow> ('v, 'v) run" where
  "invoke lib c w = (returns lib c, log_call c (returns lib c) w)"

definition invoke_pair :: "'v library \<Rightarrow> 'v call \<Rightarrow> ('v, 'v \<times> 'v) run" where
  "invoke_pair lib c w = (returns_pair lib c, log_call c (returns_pair lib c) w)"

definition import_resource :: "'v library \<Rightarrow> ('v, resource_module) run" where
  "import_resource lib w =
     (resource_import lib, log_call (Import ''resource'') (resource_import lib) w)"

text \<open>
  A call of the \<^verbatim>\<open>MPArray\<close> arithmetic, whose outcome \<open>r\<close> the parameters above
  give, and an operation of Python itself with outcome \<open>r\<close>: a call is logged, an
  operation only when it raises.
\<close>

definition construct :: "'v call \<Rightarrow> (exn + 'a) \<Rightarrow> ('v, 'a) run" where
  "construct c r w = (r, log_call c r w)"

definition operation :: "'v call \<Rightarrow> (exn + 'a) \<Rightarrow> ('v, 'a) run" where
  "operation c r w =
     (case r of
        Inl e \<Rightarrow> (Inl e, w\<lparr>raised := raised w @ [(c, e)]\<rparr>)
      | Inr a \<Rightarrow> (Inr a, w))"

definition print_line :: "'v item list \<Rightarrow> ('v, unit) run" where
  "print_line items w = (Inr (), w\<lparr>stdout := stdout w @ [items]\<rparr>)"

text \<open>
  \<^verbatim>\<open>try: body  except E: handler\<close>, with \<open>handles\<close> telling which exceptions are
  instances of \<open>E\<close>.
\<close>

definition try_except ::
  "('v, 'a) run \<Rightarrow> (exn \<Rightarrow> bool) \<Rightarrow> ('v, 'a) run \<Rightarrow> ('v, 'a) run" where
  "try_except body handles handler w =
     (case body w of
        (Inl e, w1) \<Rightarrow> if handles e then handler w1 else (Inl e, w1)
      | (Inr a, w1) \<Rightarrow> (Inr a, w1))"

text \<open>
  A comprehension or generator expression \<^verbatim>\<open>[f(x) for x in xs]\<close>: one round per
  element, in order.
\<close>

fun for_each :: "('a \<Rightarrow> ('v, 'b) run) \<Rightarrow> 'a list \<Rightarrow> ('v, 'b list) run" where
  "for_each f [] = unit_run []"
| "for_each f (x # xs) =
     bind_run (f x) (\<lambda>y. bind_run (for_each f xs) (\<lambda>ys. unit_run (y # ys)))"

section \<open>The definitions notebook\<close>


text \<open>
  Cell 2:
  \<^verbatim>\<open>
  max_gb = 2
  try:
      import resource
  except ImportError:
      resource = None
  if resource is None:
      print('Warning: No memory limit set!')
  else:
      resource.setrlimit(resource.RLIMIT_AS, (max_gb * 2**30, resource.RLIM_INFINITY))
  \<close>
\<close>

definition memory_limit_cell :: "'v library \<Rightarrow> ('v, unit) run" where
  "memory_limit_cell lib =
     (let max_gb = (2 :: int) in
      bind_run
        (try_except
           (bind_run (import_resource lib) (\<lambda>m. unit_run (Some m)))
           (\<lambda>e. e = ImportError)
           (unit_run None))
        (\<lambda>resource.
           case resource of
             None \<Rightarrow> print_line [Str ''Warning: No memory limit set!'']
           | Some m \<Rightarrow>
               bind_run
                 (invoke lib (Setrlimit (RLIMIT_AS m) (max_gb * 2 ^ 30) (RLIM_INFINITY m)))
                 (\<lambda>_. unit_run ())))"










section \<open>The time-evolution notebook\<close>



text \<open>
  Cell 3 as a run. The list holds the contents of its objects; that the objects are
  distinct, so that the update of the last leaves the others alone, is shown on the heap
  of \<open>h_terms_cell\<close> above, with which this run agrees.
  \<^verbatim>\<open>
  h_term = mp.chain((mpx, mpx)) + mp.chain((mpy, mpy)) + h * mp.chain((mpz, mid))
  h_terms = [h_term.copy() for _ in range(n_sites - 1)]
  h_terms[-1] += h * mp.chain((mid, mpz))
  \<close>
\<close>

definition h_terms_run ::
  "'v mparray_ops \<Rightarrow> 'v definitions \<Rightarrow> real \<Rightarrow> int \<Rightarrow> ('v, 'v list) run" where
  "h_terms_run L D h n_sites =
     bind_run (construct (Chain [mpx D, mpx D]) (chain L [mpx D, mpx D])) (\<lambda>xx.
     bind_run (construct (Chain [mpy D, mpy D]) (chain L [mpy D, mpy D])) (\<lambda>yy.
     bind_run (construct (Plus_op (Val xx) (Val yy)) (Inr (mp_add L xx yy))) (\<lambda>xy.
     bind_run (construct (Chain [mpz D, mid D]) (chain L [mpz D, mid D])) (\<lambda>zi.
     bind_run (construct (Times_op (FloatLit h) (Val zi)) (Inr (mp_rmul L h zi))) (\<lambda>hzi.
     bind_run (construct (Plus_op (Val xy) (Val hzi)) (Inr (mp_add L xy hzi))) (\<lambda>h_term.
     bind_run
       (for_each (\<lambda>_. construct (Copy h_term) (Inr h_term)) [0..<nat (n_sites - 1)])
       (\<lambda>h_terms.
     bind_run (operation (Getitem (- 1)) (py_getitem h_terms (- 1))) (\<lambda>last_term.
     bind_run (construct (Chain [mid D, mpz D]) (chain L [mid D, mpz D])) (\<lambda>iz.
     bind_run (construct (Times_op (FloatLit h) (Val iz)) (Inr (mp_rmul L h iz))) (\<lambda>hiz.
     bind_run
       (construct (Iadd_op (Val last_term) (Val hiz)) (Inr (mp_add L last_term hiz)))
       (\<lambda>updated.
     unit_run (h_terms[length h_terms - 1 := updated]))))))))))))"





text \<open>
  Cell 7:
  \<^verbatim>\<open>
  psi_0 = mp.chain(([mup, mdown] * ((n_sites + 1) // 2))[:n_sites])
  psi_0_arr = psi_0.to_array().ravel()
  \<close>
\<close>

definition psi_0_cell ::
  "'v mparray_ops \<Rightarrow> 'v library \<Rightarrow> 'v definitions \<Rightarrow> int \<Rightarrow> ('v, 'v \<times> 'v) run" where
  "psi_0_cell L lib D n_sites =
     bind_run (construct (Chain (psi_0_sites D n_sites)) (psi_0 L D n_sites)) (\<lambda>psi0.
     bind_run (invoke lib (To_array psi0)) (\<lambda>a.
     bind_run (invoke lib (Ravel a)) (\<lambda>psi_0_arr.
     unit_run (psi0, psi_0_arr))))"





text \<open>
  Cell 11:
  \<^verbatim>\<open>
  psi = psi_0
  for i in range(steps):
      psi = mp.partialdot(h_evo_even, psi, 0)
      psi = mp.partialdot(h_evo_odd, psi, 1)
      psi.compress(method='svd', relerr=1e-10)

  psi_t_arr = psi.to_array().ravel()
  print('Norm of the time-evolved state:', np.linalg.norm(psi_t_arr))
  print('Overlap with solution from sparse matrix:', abs(np.vdot(psi_t_arr, psi_t_spa)))
  \<close>
  \<^verbatim>\<open>range(steps)\<close> has \<open>nat steps\<close> elements.
\<close>

fun trotter_loop :: "'v library \<Rightarrow> 'v \<Rightarrow> 'v \<Rightarrow> nat \<Rightarrow> 'v \<Rightarrow> ('v, 'v) run" where
  "trotter_loop lib evo_even evo_odd 0 psi = unit_run psi"
| "trotter_loop lib evo_even evo_odd (Suc k) psi =
     bind_run (invoke lib (Partialdot evo_even psi 0)) (\<lambda>psi1.
     bind_run (invoke lib (Partialdot evo_odd psi1 1)) (\<lambda>psi2.
     bind_run (invoke lib (Compress psi2 ''svd'' (1 / 10 ^ 10))) (\<lambda>psi3.
     trotter_loop lib evo_even evo_odd k psi3)))"



text \<open>
  Cell 13:
  \<^verbatim>\<open>
  H_mpo = mp.local_sum(h_terms)
  import functools as ft
  eigs_fun = ft.partial(spa.linalg.eigsh, k=1, which='SR')
  eigval, eigvec = mp.linalg.eig(H_mpo, num_sweeps=5, startvec_rank=4, eigs=eigs_fun)
  eigvec_arr = eigvec.to_array().ravel()
  Hpsi = mp.dot(H_mpo, eigvec)
  ept_Hsq = mp.norm(Hpsi)**2
  ept_H = mp.inner(eigvec, Hpsi).real
  rel_var = (ept_Hsq - ept_H**2) / ept_H**2
  print('Eigenvalue difference:', eigval - eigval_spa)
  print('Eigenvector overlap:', abs(np.vdot(eigvec_spa, eigvec_arr)))
  print('Relative variance:', rel_var)
  \<close>
  The norm and the real part are floats of \<^verbatim>\<open>numpy\<close>, so the arithmetic of
  \<^verbatim>\<open>rel_var\<close> is the library's: each operator is a call, in the order in which
  Python evaluates the expression.
\<close>

definition mps_ground_state_cell ::
  "'v library \<Rightarrow> 'v list \<Rightarrow> 'v \<Rightarrow> 'v \<Rightarrow> ('v, 'v \<times> 'v) run" where
  "mps_ground_state_cell lib h_terms eigval_spa eigvec_spa =
     bind_run (invoke lib (Local_sum h_terms)) (\<lambda>H_mpo.
     bind_run (invoke lib (Partial_eigsh 1 ''SR'')) (\<lambda>eigs_fun.
     bind_run (invoke_pair lib (Eig H_mpo 5 4 eigs_fun)) (\<lambda>(eigval, eigvec).
     bind_run (invoke lib (To_array eigvec)) (\<lambda>a.
     bind_run (invoke lib (Ravel a)) (\<lambda>eigvec_arr.
     bind_run (invoke lib (Dot H_mpo eigvec)) (\<lambda>Hpsi.
     bind_run (invoke lib (Mp_norm Hpsi)) (\<lambda>norm_Hpsi.
     bind_run (invoke lib (Power_op (Val norm_Hpsi) (IntLit 2))) (\<lambda>ept_Hsq.
     bind_run (invoke lib (Inner eigvec Hpsi)) (\<lambda>ip.
     bind_run (invoke lib (Real_part ip)) (\<lambda>ept_H.
     bind_run (invoke lib (Power_op (Val ept_H) (IntLit 2))) (\<lambda>sq1.
     bind_run (invoke lib (Minus_op (Val ept_Hsq) (Val sq1))) (\<lambda>variance.
     bind_run (invoke lib (Power_op (Val ept_H) (IntLit 2))) (\<lambda>sq2.
     bind_run (invoke lib (Divide_op (Val variance) (Val sq2))) (\<lambda>rel_var.
     bind_run (invoke lib (Minus_op (Val eigval) (Val eigval_spa))) (\<lambda>diff.
     bind_run (print_line [Str ''Eigenvalue difference:'', Obj diff]) (\<lambda>_.
     bind_run (invoke lib (Vdot eigvec_spa eigvec_arr)) (\<lambda>d.
     bind_run (invoke lib (Abs_of d)) (\<lambda>overlap.
     bind_run (print_line [Str ''Eigenvector overlap:'', Obj overlap]) (\<lambda>_.
     bind_run (print_line [Str ''Relative variance:'', Obj rel_var]) (\<lambda>_.
     unit_run (eigval, eigvec)))))))))))))))))))))"

text \<open>The calls to the variational eigensolver \<^verbatim>\<open>mp.linalg.eig\<close>.\<close>

fun is_eig :: "'v call \<Rightarrow> bool" where
  "is_eig (Eig H num_sweeps startvec_rank eigs) = True"
| "is_eig c = False"


text \<open>The name of the function or operator of a call, without its arguments.\<close>

fun call_name :: "'v call \<Rightarrow> string" where
  "call_name (Magic line) = ''magic''"
| "call_name (Import name) = ''import''"
| "call_name (Setrlimit res soft hard) = ''setrlimit''"
| "call_name (Np_vector xs) = ''np.array''"
| "call_name (Np_matrix xss) = ''np.array''"
| "call_name (Conj x) = ''conj''"
| "call_name (Outer x y) = ''np.outer''"
| "call_name (From_array x ndims) = ''from_array''"
| "call_name (Factory_eye sites d) = ''factory.eye''"
| "call_name (Chain mpas) = ''chain''"
| "call_name (Copy x) = ''copy''"
| "call_name (Ranks x) = ''ranks''"
| "call_name (Compress x method relerr) = ''compress''"
| "call_name (To_array_global x) = ''to_array_global''"
| "call_name (Reshape x shape) = ''reshape''"
| "call_name (Spa_eye n) = ''spa.eye''"
| "call_name (Spa_kron a b) = ''spa.kron''"
| "call_name (Plus_op a b) = ''+''"
| "call_name (Minus_op a b) = ''-''"
| "call_name (Times_op a b) = ''*''"
| "call_name (Divide_op a b) = ''/''"
| "call_name (Power_op a b) = ''**''"
| "call_name (Iadd_op a b) = ''+=''"
| "call_name (To_array x) = ''to_array''"
| "call_name (Ravel x) = ''ravel''"
| "call_name (Expm_multiply a b) = ''expm_multiply''"
| "call_name (Linalg_norm x) = ''linalg.norm''"
| "call_name (Expm x) = ''expm''"
| "call_name (From_array_global x ndims) = ''from_array_global''"
| "call_name (Partialdot a b start) = ''partialdot''"
| "call_name (Vdot a b) = ''vdot''"
| "call_name (Abs_of x) = ''abs''"
| "call_name (Eigsh H k which) = ''eigsh''"
| "call_name (Local_sum terms) = ''local_sum''"
| "call_name (Partial_eigsh k which) = ''partial''"
| "call_name (Eig H num_sweeps startvec_rank eigs) = ''eig''"
| "call_name (Dot a b) = ''dot''"
| "call_name (Mp_norm x) = ''norm''"
| "call_name (Inner a b) = ''inner''"
| "call_name (Real_part x) = ''real''"
| "call_name (Getitem i) = ''getitem''"
| "call_name (Unpack n) = ''unpack''"

section \<open>A library that answers every call\<close>

text \<open>
  For running the cells on concrete inputs: every call returns, objects are symbolic
  expressions, \<^verbatim>\<open>mp.partialdot\<close> returns the state it was given, and the platform
  has the module \<^verbatim>\<open>resource\<close>. The second library is a platform without it.
\<close>

fun answer :: "mpo_expr call \<Rightarrow> exn + mpo_expr" where
  "answer (Partialdot a psi start) = Inr psi"
| "answer (Compress psi method relerr) = Inr psi"
| "answer c = Inr (Single ''object'')"

definition total_library :: "mpo_expr library" where
  "total_library =
     \<lparr>returns = answer,
      returns_pair = (\<lambda>c. Inr (Single ''eigval'', Single ''eigvec'')),
      resource_import = Inr \<lparr>RLIMIT_AS = 9, RLIM_INFINITY = - 1\<rparr>\<rparr>"

definition no_resource_library :: "mpo_expr library" where
  "no_resource_library = total_library\<lparr>resource_import := Inl ImportError\<rparr>"


definition empty_world :: "'v world" where
  "empty_world = \<lparr>calls = [], raised = [], stdout = []\<rparr>"

section \<open>Exceptions pass through; no value is rejected\<close>




section \<open>The calls of a run\<close>

text \<open>
  The code between two worlds has \<open>emitted\<close> a list of names when the calls it added
  to the log have these names, in this order. \<open>calls_named\<close> counts the calls of one
  name in the log.
\<close>

definition emitted :: "'v world \<Rightarrow> 'v world \<Rightarrow> string list \<Rightarrow> bool" where
  "emitted w w' names \<longleftrightarrow> (\<exists>new. calls w' = calls w @ new \<and> map call_name new = names)"


section \<open>Properties of the list operations\<close>

lemma length_py_repeat_pair: "length (py_repeat [a, b] k) = 2 * nat k"
  by (simp add: py_repeat_def length_concat sum_list_replicate)

lemma concat_replicate_pair_nth:
  "i < 2 * k \<Longrightarrow> concat (replicate k [a, b]) ! i = (if even i then a else b)"
proof (induction k arbitrary: i)
  case 0
  then show ?case by simp
next
  case (Suc k)
  show ?case
  proof (cases i)
    case 0
    then show ?thesis by simp
  next
    case (Suc j)
    note i = this
    show ?thesis
    proof (cases j)
      case 0
      with i show ?thesis by simp
    next
      case (Suc m)
      with i Suc.prems have "m < 2 * k" by simp
      from Suc.IH [OF this] i Suc show ?thesis by simp
    qed
  qed
qed

lemma py_repeat_pair_nth:
  "i < 2 * nat k \<Longrightarrow> py_repeat [a, b] k ! i = (if even i then a else b)"
  by (simp add: py_repeat_def concat_replicate_pair_nth)

lemma slice_indices_even: "slice_indices n 0 2 = filter even [0..<n]"
  by (simp add: slice_indices_def even_iff_mod_2_eq_zero)

lemma odd_pred_iff: "(Suc 0 \<le> i \<and> (i - Suc 0) mod 2 = 0) \<longleftrightarrow> odd i"
proof (cases i)
  case 0
  then show ?thesis by simp
next
  case (Suc j)
  have "even j \<longleftrightarrow> j mod 2 = 0" by (simp add: even_iff_mod_2_eq_zero)
  with Suc show ?thesis by simp
qed

lemma slice_indices_odd_Suc: "slice_indices n (Suc 0) 2 = filter odd [0..<n]"
  by (simp add: slice_indices_def odd_pred_iff)

lemma slice_indices_odd: "slice_indices n 1 2 = filter odd [0..<n]"
  using slice_indices_odd_Suc by simp

lemma mset_even_odd_slices:
  "mset (h_evo_even_ops xs) + mset (h_evo_odd_ops xs) = mset xs"
proof -
  have "mset (h_evo_even_ops xs) + mset (h_evo_odd_ops xs)
      = image_mset (\<lambda>i. xs ! i) (filter_mset even (mset [0..<length xs]))
      + image_mset (\<lambda>i. xs ! i) (filter_mset odd (mset [0..<length xs]))"
    by (simp add: h_evo_even_ops_def h_evo_odd_ops_def py_slice_step_def
        slice_indices_even slice_indices_odd_Suc)
  also have "\<dots> = image_mset (\<lambda>i. xs ! i) (mset [0..<length xs])"
    using multiset_partition [of "mset [0..<length xs]" even, symmetric]
    by (simp only: image_mset_union [symmetric])
  also have "\<dots> = mset (map (\<lambda>i. xs ! i) [0..<length xs])"
    by simp
  also have "\<dots> = mset xs"
    by (simp only: map_nth)
  finally show ?thesis .
qed

text \<open>
  Claim C10. For every positive integer \<open>n\<close> the list
  \<^verbatim>\<open>([mup, mdown] * ((n + 1) // 2))[:n]\<close> has exactly \<open>n\<close> entries, and its entry at
  position \<open>i\<close> is \<open>mup\<close> when \<open>i\<close> is even and \<open>mdown\<close> when \<open>i\<close> is odd, for
  even and for odd \<open>n\<close> alike; \<^verbatim>\<open>mp.chain\<close> does not raise on it, and \<open>psi_0\<close> is
  the chain of exactly these \<open>n\<close> sites.
\<close>

theorem psi_0_sites_alternate:
  assumes "0 < n"
  shows "length (psi_0_sites D n) = nat n
       \<and> (\<forall>i < nat n. psi_0_sites D n ! i = (if even i then mup D else mdown D))
       \<and> psi_0 L D n = Inr (mp_chain L (psi_0_sites D n))"
proof -
  let ?k = "(n + 1) div 2"
  from assms have k: "nat n \<le> 2 * nat ?k" by linarith
  have len: "length (psi_0_sites D n) = nat n"
    using assms k by (simp add: psi_0_sites_def py_slice_upto_def length_py_repeat_pair)
  have "psi_0_sites D n ! i = (if even i then mup D else mdown D)" if "i < nat n" for i
  proof -
    from that k have "i < 2 * nat ?k" by linarith
    with that assms show ?thesis
      by (simp add: psi_0_sites_def py_slice_upto_def py_repeat_pair_nth)
  qed
  moreover from len assms have "psi_0_sites D n \<noteq> []" by auto
  ultimately show ?thesis using len by (simp add: psi_0_def chain_def)
qed

theorem psi_0_sites_alternate_witness:
  "psi_0_sites expr_defs 5
     = [Single ''mup'', Single ''mdown'', Single ''mup'', Single ''mdown'', Single ''mup'']
   \<and> length (psi_0_sites expr_defs 5) = 5
   \<and> psi_0_sites expr_defs 5 ! 4 = Single ''mup''
   \<and> psi_0_sites expr_defs 6
     = [Single ''mup'', Single ''mdown'', Single ''mup'', Single ''mdown'', Single ''mup'',
        Single ''mdown'']
   \<and> psi_0 expr_ops expr_defs 5
     = Inr (ChainE
         [Single ''mup'', Single ''mdown'', Single ''mup'', Single ''mdown'', Single ''mup''])"
proof -
  have five: "psi_0_sites expr_defs 5
     = [Single ''mup'', Single ''mdown'', Single ''mup'', Single ''mdown'', Single ''mup'']"
    by (simp add: psi_0_sites_def py_slice_upto_def py_repeat_def numeral_eq_Suc expr_defs_def)
  have six: "psi_0_sites expr_defs 6
     = [Single ''mup'', Single ''mdown'', Single ''mup'', Single ''mdown'', Single ''mup'',
        Single ''mdown'']"
    by (simp add: psi_0_sites_def py_slice_upto_def py_repeat_def numeral_eq_Suc expr_defs_def)
  from psi_0_sites_alternate [of 5 expr_defs expr_ops]
  have "length (psi_0_sites expr_defs 5) = 5 \<and> psi_0_sites expr_defs 5 ! 4 = Single ''mup''
      \<and> psi_0 expr_ops expr_defs 5 = Inr (ChainE (psi_0_sites expr_defs 5))"
    by (simp add: expr_defs_def expr_ops_def)
  with five six show ?thesis by simp
qed

text \<open>
  The slices of a list with at most one element: \<^verbatim>\<open>h_evos[1::2]\<close> is empty then, and
  \<^verbatim>\<open>h_evos[0::2]\<close> only for the empty list.
\<close>

lemma odd_slice_empty_iff: "h_evo_odd_ops h_evos = [] \<longleftrightarrow> length h_evos \<le> 1"
proof -
  have "filter odd [0..<n] = [] \<longleftrightarrow> n \<le> 1" for n :: nat
  proof
    assume e: "filter odd [0..<n] = []"
    show "n \<le> 1"
    proof (rule ccontr)
      assume "\<not> n \<le> 1"
      then have "1 \<in> set (filter odd [0..<n])" by simp
      with e show False by simp
    qed
  next
    assume "n \<le> 1"
    then have "n = 0 \<or> n = 1" by auto
    then show "filter odd [0..<n] = []" by auto
  qed
  then show ?thesis
    by (simp add: h_evo_odd_ops_def py_slice_step_def slice_indices_odd_Suc)
qed


lemma even_slice_empty_iff: "h_evo_even_ops h_evos = [] \<longleftrightarrow> h_evos = []"
proof
  assume e: "h_evo_even_ops h_evos = []"
  show "h_evos = []"
  proof (rule ccontr)
    assume "h_evos \<noteq> []"
    then have "0 \<in> set (filter even [0..<length h_evos])" by simp
    with e show False
      by (simp add: h_evo_even_ops_def py_slice_step_def slice_indices_even)
  qed
next
  assume "h_evos = []"
  then show "h_evo_even_ops h_evos = []"
    by (simp add: h_evo_even_ops_def py_slice_step_def slice_indices_def)
qed

text \<open>
  Claim C9. The slices \<^verbatim>\<open>h_evos[0::2]\<close> and \<^verbatim>\<open>h_evos[1::2]\<close> split the positions
  \<open>0, \<dots>, len(h_evos) - 1\<close> into two disjoint lists without repetition that together
  cover every position, and the operators of the two slices together are the operators
  of \<^verbatim>\<open>h_evos\<close>, each as often as it stands there: one application of
  \<^verbatim>\<open>h_evo_even\<close> and one of \<^verbatim>\<open>h_evo_odd\<close> applies every two-site exponential
  exactly once. \<^verbatim>\<open>h_evo_even\<close> and \<^verbatim>\<open>h_evo_odd\<close> are the chains of the two
  slices, where the slice has an operator: \<^verbatim>\<open>mp.chain\<close> raises \<^verbatim>\<open>ValueError\<close> on the
  even slice of the empty list and on the odd slice of a list of at most one operator.
\<close>

theorem even_odd_slices_partition:
  "set (slice_indices (length h_evos) 0 2) \<inter> set (slice_indices (length h_evos) 1 2) = {}
   \<and> set (slice_indices (length h_evos) 0 2) \<union> set (slice_indices (length h_evos) 1 2)
       = {0..<length h_evos}
   \<and> distinct (slice_indices (length h_evos) 0 2)
   \<and> distinct (slice_indices (length h_evos) 1 2)
   \<and> h_evo_even_ops h_evos = map (\<lambda>i. h_evos ! i) (slice_indices (length h_evos) 0 2)
   \<and> h_evo_odd_ops h_evos = map (\<lambda>i. h_evos ! i) (slice_indices (length h_evos) 1 2)
   \<and> mset (h_evo_even_ops h_evos) + mset (h_evo_odd_ops h_evos) = mset h_evos
   \<and> h_evo_even L h_evos
       = (if h_evos = [] then Inl ValueError else Inr (mp_chain L (h_evo_even_ops h_evos)))
   \<and> h_evo_odd L h_evos
       = (if length h_evos \<le> 1 then Inl ValueError
          else Inr (mp_chain L (h_evo_odd_ops h_evos)))"
proof -
  let ?n = "length h_evos"
  have e: "slice_indices ?n 0 2 = filter even [0..<?n]"
    by (rule slice_indices_even)
  have o: "slice_indices ?n 1 2 = filter odd [0..<?n]"
    by (rule slice_indices_odd)
  have disj: "set (filter even [0..<?n]) \<inter> set (filter odd [0..<?n]) = {}"
    by auto
  have cover: "set (filter even [0..<?n]) \<union> set (filter odd [0..<?n]) = {0..<?n}"
    by auto
  have d: "distinct (filter even [0..<?n])" "distinct (filter odd [0..<?n])"
    by simp_all
  have ev: "h_evo_even_ops h_evos = map (\<lambda>i. h_evos ! i) (slice_indices ?n 0 2)"
    by (simp add: h_evo_even_ops_def py_slice_step_def)
  have od: "h_evo_odd_ops h_evos = map (\<lambda>i. h_evos ! i) (slice_indices ?n 1 2)"
    by (simp add: h_evo_odd_ops_def py_slice_step_def)
  have ch: "h_evo_even L h_evos
       = (if h_evos = [] then Inl ValueError else Inr (mp_chain L (h_evo_even_ops h_evos)))"
    "h_evo_odd L h_evos
       = (if length h_evos \<le> 1 then Inl ValueError
          else Inr (mp_chain L (h_evo_odd_ops h_evos)))"
    by (simp_all add: h_evo_even_def h_evo_odd_def chain_def even_slice_empty_iff
        odd_slice_empty_iff)
  from disj cover d ev od ch mset_even_odd_slices [of h_evos] show ?thesis
    unfolding e o by blast
qed

section \<open>The Hamiltonian terms\<close>

lemma copy_each_eq:
  "r < length H \<Longrightarrow>
   copy_each r k H = ([length H ..< length H + k], H @ replicate k (H ! r))"
proof (induction k arbitrary: H)
  case 0
  then show ?case by simp
next
  case (Suc k)
  from Suc.prems have r: "r < length (H @ [H ! r])" by simp
  from Suc.prems have same: "(H @ [H ! r]) ! r = H ! r" by (simp add: nth_append)
  show ?case
    using Suc.IH [OF r] same
    by (simp add: new_obj_def upt_conv_Cons replicate_append_same)
qed

lemma values_inplace:
  assumes "0 < k" and s: "s = Suc (length H)"
  shows "map (\<lambda>a. ((H @ v # replicate k v)[length H + k := w]) ! a) [s ..< s + k]
       = replicate (k - 1) v @ [w]"
proof (rule nth_equalityI)
  show "length (map (\<lambda>a. ((H @ v # replicate k v)[length H + k := w]) ! a) [s ..< s + k])
      = length (replicate (k - 1) v @ [w])"
    using assms by simp
next
  fix i
  assume "i < length (map (\<lambda>a. ((H @ v # replicate k v)[length H + k := w]) ! a) [s ..< s + k])"
  then have i: "i < k" by simp
  then have nth: "[s ..< s + k] ! i = s + i" by simp
  have len: "length (H @ v # replicate k v) = Suc (length H + k)" by simp
  show "map (\<lambda>a. ((H @ v # replicate k v)[length H + k := w]) ! a) [s ..< s + k] ! i
      = (replicate (k - 1) v @ [w]) ! i"
  proof (cases "i = k - 1")
    case True
    with i assms have "s + i = length H + k" by simp
    with i True nth len show ?thesis by (simp add: nth_append del: upt_Suc)
  next
    case False
    with i assms have lt: "i < k - 1" by simp
    with s have ne: "s + i \<noteq> length H + k" by simp
    have "(H @ v # replicate k v) ! (s + i) = v"
      using i s by (simp add: nth_append nth_Cons')
    with i lt ne nth show ?thesis by (simp add: nth_append del: upt_Suc)
  qed
qed

lemma values_fresh:
  assumes "0 < k" and s: "s = Suc (length H)"
  shows "map (\<lambda>a. ((H @ v # replicate k v) @ [w]) ! a) ([s ..< s + k][k - 1 := Suc (length H + k)])
       = replicate (k - 1) v @ [w]"
proof -
  define G where "G = (H @ v # replicate k v) @ [w]"
  have old: "G ! (s + i) = v" if "i < k" for i
    using that s by (simp add: G_def nth_append nth_Cons')
  have new: "G ! Suc (length H + k) = w"
    by (simp add: G_def nth_append)
  have "map (\<lambda>a. G ! a) ([s ..< s + k][k - 1 := Suc (length H + k)]) = replicate (k - 1) v @ [w]"
  proof (rule nth_equalityI)
    show "length (map (\<lambda>a. G ! a) ([s ..< s + k][k - 1 := Suc (length H + k)]))
        = length (replicate (k - 1) v @ [w])"
      using assms by simp
  next
    fix i
    assume "i < length (map (\<lambda>a. G ! a) ([s ..< s + k][k - 1 := Suc (length H + k)]))"
    then have i: "i < k" by simp
    then have nth: "[s ..< s + k] ! i = s + i" by simp
    show "map (\<lambda>a. G ! a) ([s ..< s + k][k - 1 := Suc (length H + k)]) ! i
        = (replicate (k - 1) v @ [w]) ! i"
    proof (cases "i = k - 1")
      case True
      with i new show ?thesis by (simp add: nth_append del: upt_Suc)
    next
      case False
      with i assms have lt: "i < k - 1" by simp
      with i False nth old [OF i] show ?thesis by (simp add: nth_append del: upt_Suc)
    qed
  qed
  then show ?thesis by (simp only: G_def)
qed

lemma upt_update_last:
  assumes "0 < k"
  shows "[s ..< s + k][k - 1 := b] = [s ..< s + (k - 1)] @ [b]"
proof -
  from assms obtain j where k: "k = Suc j" by (cases k) auto
  have "[s ..< s + Suc j] = [s ..< s + j] @ [s + j]" by simp
  then have "[s ..< s + Suc j][j := b] = ([s ..< s + j] @ [s + j])[length [s ..< s + j] := b]"
    by simp
  also have "\<dots> = [s ..< s + j] @ [b]" by (simp only: list_update_length)
  finally show ?thesis using k by simp
qed

lemma last_upt_block: "0 < k \<Longrightarrow> last [s ..< s + k] = s + k - 1"
  by (cases k) simp_all

lemma h_terms_cell_result:
  assumes "2 \<le> n_sites"
  shows "\<exists>refs H'. h_terms_cell L D inplace h n_sites H = Inr (refs, H')
       \<and> length refs = nat (n_sites - 1) \<and> distinct refs
       \<and> map (\<lambda>a. H' ! a) refs
           = replicate (nat (n_sites - 2)) (h_term_value L D h)
             @ [mp_add L (h_term_value L D h) (boundary_value L D h)]
       \<and> take (length H) H' = H"
proof -
  define k where "k = nat (n_sites - 1)"
  define v where "v = h_term_value L D h"
  define w where "w = mp_add L v (boundary_value L D h)"
  define s where "s = Suc (length H)"
  define refs where "refs = [s ..< s + k]"
  define H2 where "H2 = H @ v # replicate k v"
  from assms have k: "0 < k" and k1: "k - 1 = nat (n_sites - 2)"
    by (simp_all add: k_def)
  have copies: "copy_each (length H) k (H @ [v]) = (refs, H2)"
    using copy_each_eq [of "length H" "H @ [v]" k]
    by (simp add: refs_def s_def H2_def)
  have refs_ne: "refs \<noteq> []" and len: "length refs = k"
    using k by (simp_all add: refs_def)
  have last_refs: "last refs = length H + k"
    using last_upt_block [OF k, of s] by (simp add: refs_def s_def)
  have at_last: "H2 ! (length H + k) = v"
    using k by (simp add: H2_def nth_append nth_Cons')
  have run: "h_terms_cell L D inplace h n_sites H = iadd_last L inplace refs (boundary_value L D h) H2"
    using copies by (simp add: h_terms_cell_def new_obj_def v_def k_def)
  show ?thesis
  proof (cases inplace)
    case True
    have res: "h_terms_cell L D inplace h n_sites H = Inr (refs, H2[length H + k := w])"
      unfolding run iadd_last_def w_def
      using True refs_ne last_refs at_last by simp
    have vals: "map (\<lambda>a. (H2[length H + k := w]) ! a) refs = replicate (k - 1) v @ [w]"
      unfolding H2_def refs_def by (rule values_inplace [OF k s_def])
    have keep: "take (length H) (H2[length H + k := w]) = H"
      by (simp add: H2_def)
    have "distinct refs" by (simp add: refs_def)
    with res vals keep len show ?thesis
      unfolding k1 v_def [symmetric] w_def [symmetric] k_def [symmetric] by blast
  next
    case False
    have res: "h_terms_cell L D inplace h n_sites H
             = Inr (refs[k - 1 := Suc (length H + k)], H2 @ [w])"
      unfolding run iadd_last_def w_def new_obj_def
      using False refs_ne last_refs at_last len by (simp add: H2_def)
    have vals: "map (\<lambda>a. (H2 @ [w]) ! a) (refs[k - 1 := Suc (length H + k)])
              = replicate (k - 1) v @ [w]"
      unfolding H2_def refs_def by (rule values_fresh [OF k s_def])
    have keep: "take (length H) (H2 @ [w]) = H"
      by (simp add: H2_def)
    have b: "Suc (length H + k) = s + k"
      by (simp add: s_def)
    have "refs[k - 1 := s + k] = [s ..< s + (k - 1)] @ [s + k]"
      unfolding refs_def by (rule upt_update_last [OF k])
    moreover have "distinct ([s ..< s + (k - 1)] @ [s + k])"
      using k by simp
    ultimately have "distinct (refs[k - 1 := Suc (length H + k)])"
      by (simp only: b)
    with res vals keep len show ?thesis
      unfolding k1 v_def [symmetric] w_def [symmetric] k_def [symmetric]
      by (metis length_list_update)
  qed
qed

text \<open>
  Claim C2. For a chain of at least two sites, cell 3 leaves a list of exactly
  \<open>n_sites - 1\<close> distinct objects. All but the last have the content
  \<open>mpx\<otimes>mpx + mpy\<otimes>mpy + h\<cdot>(mpz\<otimes>mid)\<close>, the sums and the product taken in the
  order of the source line; the last has this content plus \<open>h\<cdot>(mid\<otimes>mpz)\<close>. Objects
  that existed before the cell keep their content. This holds whether the library adds
  in place or not.
\<close>

theorem h_terms_cell_terms:
  assumes "2 \<le> n_sites"
  shows "\<exists>refs H'. h_terms_cell L D inplace h n_sites H = Inr (refs, H')
       \<and> length refs = nat (n_sites - 1) \<and> distinct refs
       \<and> map (\<lambda>a. H' ! a) refs
           = replicate (nat (n_sites - 2))
               (mp_add L
                  (mp_add L (mp_chain L [mpx D, mpx D]) (mp_chain L [mpy D, mpy D]))
                  (mp_rmul L h (mp_chain L [mpz D, mid D])))
             @ [mp_add L
                  (mp_add L
                     (mp_add L (mp_chain L [mpx D, mpx D]) (mp_chain L [mpy D, mpy D]))
                     (mp_rmul L h (mp_chain L [mpz D, mid D])))
                  (mp_rmul L h (mp_chain L [mid D, mpz D]))]
       \<and> take (length H) H' = H"
  using h_terms_cell_result [OF assms, of L D inplace h H]
  by (simp only: h_term_value_def boundary_value_def)

theorem h_terms_cell_terms_witness:
  "(2::int) \<le> 6
   \<and> (\<exists>refs H'. h_terms_cell expr_ops expr_defs True (3 / 10) 6 [] = Inr (refs, H')
        \<and> length refs = 5 \<and> distinct refs
        \<and> map (\<lambda>a. H' ! a) refs
            = replicate 4
                (AddE
                   (AddE (ChainE [Single ''mpx'', Single ''mpx''])
                      (ChainE [Single ''mpy'', Single ''mpy'']))
                   (ScaleE (3 / 10) (ChainE [Single ''mpz'', Single ''mid''])))
              @ [AddE
                   (AddE
                      (AddE (ChainE [Single ''mpx'', Single ''mpx''])
                         (ChainE [Single ''mpy'', Single ''mpy'']))
                      (ScaleE (3 / 10) (ChainE [Single ''mpz'', Single ''mid''])))
                   (ScaleE (3 / 10) (ChainE [Single ''mid'', Single ''mpz'']))])"
  using h_terms_cell_terms [of 6 expr_ops expr_defs True "3 / 10" "[]"]
  by (simp add: expr_ops_def expr_defs_def)

text \<open>A chain of fewer than two sites has no term to update: the cell raises.\<close>

lemma h_terms_cell_short_chain:
  "n_sites \<le> 1 \<Longrightarrow> h_terms_cell L D inplace h n_sites H = Inl IndexError"
  by (simp add: h_terms_cell_def new_obj_def iadd_last_def)

section \<open>Sequencing\<close>

lemma bind_run_Inr:
  "bind_run m f w = (Inr b, w') \<longleftrightarrow> (\<exists>a w1. m w = (Inr a, w1) \<and> f a w1 = (Inr b, w'))"
  by (auto simp: bind_run_def split: prod.splits sum.splits)

lemma bind_run_InrE:
  assumes "bind_run m f w = (Inr b, w')"
  obtains a w1 where "m w = (Inr a, w1)" and "f a w1 = (Inr b, w')"
  using assms by (auto simp: bind_run_Inr)

lemma invoke_Inr:
  "invoke lib c w = (Inr v, w') \<longleftrightarrow> returns lib c = Inr v \<and> w' = w\<lparr>calls := calls w @ [c]\<rparr>"
  by (auto simp: invoke_def log_call_def)

lemma invoke_pair_Inr:
  "invoke_pair lib c w = (Inr p, w') \<longleftrightarrow>
     returns_pair lib c = Inr p \<and> w' = w\<lparr>calls := calls w @ [c]\<rparr>"
  by (auto simp: invoke_pair_def log_call_def)

lemma construct_Inr:
  "construct c r w = (Inr a, w') \<longleftrightarrow> r = Inr a \<and> w' = w\<lparr>calls := calls w @ [c]\<rparr>"
  by (auto simp: construct_def log_call_def)

lemma operation_Inr: "operation c r w = (Inr a, w') \<longleftrightarrow> r = Inr a \<and> w' = w"
  by (auto simp: operation_def split: sum.splits)

lemma print_line_eq:
  "print_line items w = (r, w') \<longleftrightarrow> r = Inr () \<and> w' = w\<lparr>stdout := stdout w @ [items]\<rparr>"
  by (auto simp: print_line_def)

lemma unit_run_eq: "unit_run a w = (r, w') \<longleftrightarrow> r = Inr a \<and> w' = w"
  by (auto simp: unit_run_def)

lemmas run_Inr =
  bind_run_Inr invoke_Inr invoke_pair_Inr construct_Inr operation_Inr print_line_eq unit_run_eq

lemma chain_pair: "chain L [a, b] = Inr (mp_chain L [a, b])"
  by (simp add: chain_def)

section \<open>Names of the calls of a run\<close>




lemma emitted_stdout: "emitted w w' names \<Longrightarrow> emitted (w\<lparr>stdout := s\<rparr>) w' names"
  by (simp add: emitted_def)



section \<open>The Trotter loop\<close>

lemma trotter_loop_calls:
  assumes "trotter_loop lib evo_even evo_odd steps psi w = (Inr psi', w')"
  shows "\<exists>rounds. length rounds = steps
       \<and> calls w' = calls w @ concat (map (\<lambda>(p0, p1, p2).
            [Partialdot evo_even p0 0, Partialdot evo_odd p1 1,
             Compress p2 ''svd'' (1 / 10 ^ 10)]) rounds)
       \<and> (\<forall>(p0, p1, p2) \<in> set rounds.
            returns lib (Partialdot evo_even p0 0) = Inr p1
          \<and> returns lib (Partialdot evo_odd p1 1) = Inr p2)
       \<and> raised w' = raised w \<and> stdout w' = stdout w"
  using assms
proof (induction steps arbitrary: psi w)
  case 0
  then have "w' = w" by (simp add: unit_run_eq)
  then show ?case by (intro exI [of _ "[]"]) simp
next
  case (Suc k)
  from Suc.prems obtain psi1 psi2 psi3 where
    c1: "returns lib (Partialdot evo_even psi 0) = Inr psi1" and
    c2: "returns lib (Partialdot evo_odd psi1 1) = Inr psi2" and
    c3: "returns lib (Compress psi2 ''svd'' (1 / 10 ^ 10)) = Inr psi3" and
    rest: "trotter_loop lib evo_even evo_odd k psi3
             (w\<lparr>calls := calls w @ [Partialdot evo_even psi 0, Partialdot evo_odd psi1 1,
                   Compress psi2 ''svd'' (1 / 10 ^ 10)]\<rparr>) = (Inr psi', w')"
    by (auto simp: bind_run_Inr invoke_Inr)
  from Suc.IH [OF rest] obtain rounds where
    r: "length rounds = k"
      "calls w' = (calls w @ [Partialdot evo_even psi 0, Partialdot evo_odd psi1 1,
                   Compress psi2 ''svd'' (1 / 10 ^ 10)])
         @ concat (map (\<lambda>(p0, p1, p2).
            [Partialdot evo_even p0 0, Partialdot evo_odd p1 1,
             Compress p2 ''svd'' (1 / 10 ^ 10)]) rounds)"
      "\<forall>(p0, p1, p2) \<in> set rounds.
            returns lib (Partialdot evo_even p0 0) = Inr p1
          \<and> returns lib (Partialdot evo_odd p1 1) = Inr p2"
      "raised w' = raised w" "stdout w' = stdout w"
    by auto
  show ?case
    using r c1 c2 by (intro exI [of _ "(psi, psi1, psi2) # rounds"]) simp
qed


section \<open>Rounds and calls of the cells\<close>









lemma psi_0_cell_result:
  assumes "psi_0_cell L lib D n_sites w = (Inr (psi0, psi_0_arr), w')"
  shows "\<exists>a. psi_0 L D n_sites = Inr psi0
       \<and> returns lib (To_array psi0) = Inr a \<and> returns lib (Ravel a) = Inr psi_0_arr
       \<and> calls w' = calls w @ [Chain (psi_0_sites D n_sites), To_array psi0, Ravel a]
       \<and> stdout w' = stdout w"
  using assms unfolding psi_0_cell_def by (auto simp: run_Inr)




lemma mps_ground_state_cell_result:
  assumes "mps_ground_state_cell lib h_terms eigval_spa eigvec_spa w = (Inr (eigval, eigvec), w')"
  shows "\<exists>H_mpo eigs_fun a eigvec_arr Hpsi norm_Hpsi ept_Hsq ip ept_H sq1 variance sq2 rel_var
          diff d overlap.
         returns lib (Local_sum h_terms) = Inr H_mpo
       \<and> returns lib (Partial_eigsh 1 ''SR'') = Inr eigs_fun
       \<and> returns_pair lib (Eig H_mpo 5 4 eigs_fun) = Inr (eigval, eigvec)
       \<and> returns lib (To_array eigvec) = Inr a \<and> returns lib (Ravel a) = Inr eigvec_arr
       \<and> returns lib (Dot H_mpo eigvec) = Inr Hpsi
       \<and> returns lib (Mp_norm Hpsi) = Inr norm_Hpsi
       \<and> returns lib (Power_op (Val norm_Hpsi) (IntLit 2)) = Inr ept_Hsq
       \<and> returns lib (Inner eigvec Hpsi) = Inr ip
       \<and> returns lib (Real_part ip) = Inr ept_H
       \<and> returns lib (Power_op (Val ept_H) (IntLit 2)) = Inr sq1
       \<and> returns lib (Minus_op (Val ept_Hsq) (Val sq1)) = Inr variance
       \<and> returns lib (Power_op (Val ept_H) (IntLit 2)) = Inr sq2
       \<and> returns lib (Divide_op (Val variance) (Val sq2)) = Inr rel_var
       \<and> returns lib (Minus_op (Val eigval) (Val eigval_spa)) = Inr diff
       \<and> returns lib (Vdot eigvec_spa eigvec_arr) = Inr d
       \<and> returns lib (Abs_of d) = Inr overlap
       \<and> calls w' = calls w @
           [Local_sum h_terms, Partial_eigsh 1 ''SR'', Eig H_mpo 5 4 eigs_fun,
            To_array eigvec, Ravel a, Dot H_mpo eigvec, Mp_norm Hpsi,
            Power_op (Val norm_Hpsi) (IntLit 2), Inner eigvec Hpsi, Real_part ip,
            Power_op (Val ept_H) (IntLit 2), Minus_op (Val ept_Hsq) (Val sq1),
            Power_op (Val ept_H) (IntLit 2), Divide_op (Val variance) (Val sq2),
            Minus_op (Val eigval) (Val eigval_spa),
            Vdot eigvec_spa eigvec_arr, Abs_of d]
       \<and> stdout w' = stdout w @
           [[Str ''Eigenvalue difference:'', Obj diff],
            [Str ''Eigenvector overlap:'', Obj overlap],
            [Str ''Relative variance:'', Obj rel_var]]"
  using assms unfolding mps_ground_state_cell_def by (auto simp: run_Inr)

section \<open>Cell 3 as a run\<close>

lemma for_each_copy:
  "for_each (\<lambda>_. construct (Copy v) (Inr v)) xs w
     = (Inr (replicate (length xs) v), w\<lparr>calls := calls w @ replicate (length xs) (Copy v)\<rparr>)"
proof (induction xs arbitrary: w)
  case Nil
  then show ?case by (simp add: unit_run_def)
next
  case (Cons x xs)
  show ?case
    unfolding for_each.simps bind_run_def Cons.IH
    by (simp add: construct_def log_call_def unit_run_def replicate_append_same)
qed

lemma py_getitem_last_replicate: "0 < k \<Longrightarrow> py_getitem (replicate k v) (- 1) = Inr v"
  by (simp add: py_getitem_def)

lemma replicate_update_last:
  "0 < k \<Longrightarrow> (replicate k v)[k - Suc 0 := u] = replicate (k - Suc 0) v @ [u]"
proof -
  assume "0 < k"
  then obtain j where k: "k = Suc j" by (cases k) auto
  have "replicate (Suc j) v = replicate j v @ [v]"
    by (simp add: replicate_append_same)
  then have "(replicate (Suc j) v)[j := u] = (replicate j v @ [v])[length (replicate j v) := u]"
    by simp
  also have "\<dots> = replicate j v @ [u]"
    by (simp only: list_update_length)
  finally show ?thesis using k by simp
qed

lemma h_terms_run_long:
  assumes "2 \<le> n_sites"
  shows "h_terms_run L D h n_sites w
     = (Inr (replicate (nat (n_sites - 2)) (h_term_value L D h)
             @ [mp_add L (h_term_value L D h) (boundary_value L D h)]),
        w\<lparr>calls := calls w @
          [Chain [mpx D, mpx D], Chain [mpy D, mpy D],
           Plus_op (Val (mp_chain L [mpx D, mpx D])) (Val (mp_chain L [mpy D, mpy D])),
           Chain [mpz D, mid D],
           Times_op (FloatLit h) (Val (mp_chain L [mpz D, mid D])),
           Plus_op (Val (mp_add L (mp_chain L [mpx D, mpx D]) (mp_chain L [mpy D, mpy D])))
             (Val (mp_rmul L h (mp_chain L [mpz D, mid D])))]
          @ replicate (nat (n_sites - 1)) (Copy (h_term_value L D h))
          @ [Chain [mid D, mpz D], Times_op (FloatLit h) (Val (mp_chain L [mid D, mpz D])),
             Iadd_op (Val (h_term_value L D h)) (Val (boundary_value L D h))]\<rparr>)"
proof -
  define k where "k = nat (n_sites - 1)"
  from assms have k: "0 < k" and k1: "k - 1 = nat (n_sites - 2)"
    by (simp_all add: k_def)
  show ?thesis
    unfolding h_terms_run_def k_def [symmetric] k1 [symmetric]
    using k
    by (simp add: bind_run_def construct_def operation_def log_call_def unit_run_def
        chain_pair for_each_copy py_getitem_last_replicate replicate_update_last
        h_term_value_def boundary_value_def)
qed

lemma h_terms_run_short:
  assumes "n_sites \<le> 1"
  shows "h_terms_run L D h n_sites w
     = (Inl IndexError,
        w\<lparr>calls := calls w @
          [Chain [mpx D, mpx D], Chain [mpy D, mpy D],
           Plus_op (Val (mp_chain L [mpx D, mpx D])) (Val (mp_chain L [mpy D, mpy D])),
           Chain [mpz D, mid D],
           Times_op (FloatLit h) (Val (mp_chain L [mpz D, mid D])),
           Plus_op (Val (mp_add L (mp_chain L [mpx D, mpx D]) (mp_chain L [mpy D, mpy D])))
             (Val (mp_rmul L h (mp_chain L [mpz D, mid D])))],
          raised := raised w @ [(Getitem (- 1), IndexError)]\<rparr>)"
  using assms unfolding h_terms_run_def
  by (simp add: bind_run_def construct_def operation_def log_call_def unit_run_def
      chain_pair py_getitem_def)

text \<open>The run of cell 3 and the heap of cell 3 give the same list of contents.\<close>

lemma h_terms_run_agrees:
  "fst (h_terms_run L D h n_sites w)
     = (case h_terms_cell L D inplace h n_sites H of
          Inl e \<Rightarrow> Inl e
        | Inr (refs, H') \<Rightarrow> Inr (map (\<lambda>a. H' ! a) refs))"
proof (cases "2 \<le> n_sites")
  case True
  from h_terms_cell_result [OF True, of L D inplace h H] obtain refs H' where
    "h_terms_cell L D inplace h n_sites H = Inr (refs, H')"
    "map (\<lambda>a. H' ! a) refs
           = replicate (nat (n_sites - 2)) (h_term_value L D h)
             @ [mp_add L (h_term_value L D h) (boundary_value L D h)]"
    by blast
  then show ?thesis by (simp add: h_terms_run_long [OF True])
next
  case False
  then have short: "n_sites \<le> 1" by simp
  show ?thesis
    by (simp add: h_terms_run_short [OF short] h_terms_cell_short_chain [OF short])
qed


section \<open>Calls of the straight-line cells\<close>












section \<open>Calls of the whole notebook\<close>


section \<open>Exceptions pass through: the combinators and the cells\<close>


















section \<open>No value is rejected\<close>



















section \<open>Running the cells on the symbolic library\<close>

lemmas run_simps =
  bind_run_def unit_run_def invoke_def invoke_pair_def log_call_def
  print_line_def import_resource_def try_except_def construct_def operation_def



section \<open>The calls of the Trotter loop and of the ground-state search\<close>

text \<open>
  Claim C1. A run of the Trotter loop that ends normally has made, for each of its
  \<open>steps\<close> rounds and in this order, exactly three calls: \<^verbatim>\<open>mp.partialdot\<close> of
  the even operator at site \<open>0\<close>, \<^verbatim>\<open>mp.partialdot\<close> of the odd operator at site
  \<open>1\<close> on the result of the first, and \<^verbatim>\<open>compress\<close> with method \<^verbatim>\<open>svd\<close> and
  \<^verbatim>\<open>relerr=1e-10\<close> on the result of the second.
\<close>

theorem trotter_loop_three_calls:
  assumes "trotter_loop lib evo_even evo_odd (nat steps) psi w = (Inr psi', w')"
  shows "\<exists>rounds. length rounds = nat steps
       \<and> calls w' = calls w @ concat (map (\<lambda>(p0, p1, p2).
            [Partialdot evo_even p0 0, Partialdot evo_odd p1 1,
             Compress p2 ''svd'' (1 / 10 ^ 10)]) rounds)
       \<and> (\<forall>(p0, p1, p2) \<in> set rounds.
            returns lib (Partialdot evo_even p0 0) = Inr p1
          \<and> returns lib (Partialdot evo_odd p1 1) = Inr p2)"
  using trotter_loop_calls [OF assms] by blast

theorem trotter_loop_three_calls_witness:
  "trotter_loop total_library (Single ''h_evo_even'') (Single ''h_evo_odd'') (nat 2)
       (Single ''psi_0'') empty_world
     = (Inr (Single ''psi_0''),
        \<lparr>calls =
           [Partialdot (Single ''h_evo_even'') (Single ''psi_0'') 0,
            Partialdot (Single ''h_evo_odd'') (Single ''psi_0'') 1,
            Compress (Single ''psi_0'') ''svd'' (1 / 10 ^ 10),
            Partialdot (Single ''h_evo_even'') (Single ''psi_0'') 0,
            Partialdot (Single ''h_evo_odd'') (Single ''psi_0'') 1,
            Compress (Single ''psi_0'') ''svd'' (1 / 10 ^ 10)],
         raised = [], stdout = []\<rparr>)
   \<and> (\<exists>rounds. length rounds = 2
        \<and> [Partialdot (Single ''h_evo_even'') (Single ''psi_0'') 0,
            Partialdot (Single ''h_evo_odd'') (Single ''psi_0'') 1,
            Compress (Single ''psi_0'') ''svd'' (1 / 10 ^ 10),
            Partialdot (Single ''h_evo_even'') (Single ''psi_0'') 0,
            Partialdot (Single ''h_evo_odd'') (Single ''psi_0'') 1,
            Compress (Single ''psi_0'') ''svd'' (1 / 10 ^ 10)]
          = concat (map (\<lambda>(p0, p1, p2).
              [Partialdot (Single ''h_evo_even'') p0 0, Partialdot (Single ''h_evo_odd'') p1 1,
               Compress p2 ''svd'' (1 / 10 ^ 10)]) rounds))"
proof -
  have run: "trotter_loop total_library (Single ''h_evo_even'') (Single ''h_evo_odd'') (nat 2)
       (Single ''psi_0'') empty_world
     = (Inr (Single ''psi_0''),
        \<lparr>calls =
           [Partialdot (Single ''h_evo_even'') (Single ''psi_0'') 0,
            Partialdot (Single ''h_evo_odd'') (Single ''psi_0'') 1,
            Compress (Single ''psi_0'') ''svd'' (1 / 10 ^ 10),
            Partialdot (Single ''h_evo_even'') (Single ''psi_0'') 0,
            Partialdot (Single ''h_evo_odd'') (Single ''psi_0'') 1,
            Compress (Single ''psi_0'') ''svd'' (1 / 10 ^ 10)],
         raised = [], stdout = []\<rparr>)"
    by (simp add: numeral_2_eq_2 run_simps total_library_def empty_world_def)
  from trotter_loop_three_calls [OF run] obtain rounds where
    "length rounds = nat 2"
    "calls \<lparr>calls =
           [Partialdot (Single ''h_evo_even'') (Single ''psi_0'') 0,
            Partialdot (Single ''h_evo_odd'') (Single ''psi_0'') 1,
            Compress (Single ''psi_0'') ''svd'' (1 / 10 ^ 10),
            Partialdot (Single ''h_evo_even'') (Single ''psi_0'') 0,
            Partialdot (Single ''h_evo_odd'') (Single ''psi_0'') 1,
            Compress (Single ''psi_0'') ''svd'' (1 / 10 ^ 10)],
         raised = [], stdout = []\<rparr>
     = calls (empty_world :: mpo_expr world) @ concat (map (\<lambda>(p0, p1, p2).
              [Partialdot (Single ''h_evo_even'') p0 0, Partialdot (Single ''h_evo_odd'') p1 1,
               Compress p2 ''svd'' (1 / 10 ^ 10)]) rounds)"
    by blast
  then have "length rounds = 2
        \<and> [Partialdot (Single ''h_evo_even'') (Single ''psi_0'') 0,
            Partialdot (Single ''h_evo_odd'') (Single ''psi_0'') 1,
            Compress (Single ''psi_0'') ''svd'' (1 / 10 ^ 10),
            Partialdot (Single ''h_evo_even'') (Single ''psi_0'') 0,
            Partialdot (Single ''h_evo_odd'') (Single ''psi_0'') 1,
            Compress (Single ''psi_0'') ''svd'' (1 / 10 ^ 10)]
          = concat (map (\<lambda>(p0, p1, p2).
              [Partialdot (Single ''h_evo_even'') p0 0, Partialdot (Single ''h_evo_odd'') p1 1,
               Compress p2 ''svd'' (1 / 10 ^ 10)]) rounds)"
    by (simp add: empty_world_def)
  with run show ?thesis by blast
qed

text \<open>
  Claim C3. A run of the ground-state cell that ends normally has called
  \<^verbatim>\<open>mp.linalg.eig\<close> exactly once, on the sum of the local terms, with
  \<^verbatim>\<open>num_sweeps=5\<close>, \<^verbatim>\<open>startvec_rank=4\<close> and the \<^verbatim>\<open>eigsh\<close>-based inner solver.
\<close>

theorem mps_ground_state_single_eig:
  assumes "mps_ground_state_cell lib h_terms eigval_spa eigvec_spa w = (Inr r, w')"
  shows "\<exists>H_mpo eigs_fun new.
           returns lib (Local_sum h_terms) = Inr H_mpo
         \<and> returns lib (Partial_eigsh 1 ''SR'') = Inr eigs_fun
         \<and> returns_pair lib (Eig H_mpo 5 4 eigs_fun) = Inr r
         \<and> calls w' = calls w @ new
         \<and> filter is_eig new = [Eig H_mpo 5 4 eigs_fun]"
proof -
  obtain eigval eigvec where r: "r = (eigval, eigvec)" by (cases r)
  from mps_ground_state_cell_result [OF assms [unfolded r]] r show ?thesis
    by (elim exE conjE) (intro exI conjI, assumption, assumption, simp, assumption, simp)
qed

theorem mps_ground_state_single_eig_witness:
  "(\<exists>w'. mps_ground_state_cell total_library [Single ''h0'', Single ''h1''] (Single ''eigval_spa'')
       (Single ''eigvec_spa'') empty_world = (Inr (Single ''eigval'', Single ''eigvec''), w')
     \<and> filter is_eig (calls w')
        = [Eig (Single ''object'') 5 4 (Single ''object'')])"
proof -
  have run: "mps_ground_state_cell total_library [Single ''h0'', Single ''h1'']
       (Single ''eigval_spa'') (Single ''eigvec_spa'') empty_world
     = (Inr (Single ''eigval'', Single ''eigvec''),
        snd (mps_ground_state_cell total_library [Single ''h0'', Single ''h1'']
       (Single ''eigval_spa'') (Single ''eigvec_spa'') empty_world))"
    by (simp add: mps_ground_state_cell_def run_simps total_library_def empty_world_def)
  from mps_ground_state_single_eig [OF run] obtain H_mpo eigs_fun new where
    h: "returns total_library (Local_sum [Single ''h0'', Single ''h1'']) = Inr H_mpo"
       "returns total_library (Partial_eigsh 1 ''SR'') = Inr eigs_fun"
       "calls (snd (mps_ground_state_cell total_library [Single ''h0'', Single ''h1'']
          (Single ''eigval_spa'') (Single ''eigvec_spa'') empty_world))
        = calls (empty_world :: mpo_expr world) @ new"
       "filter is_eig new = [Eig H_mpo 5 4 eigs_fun]"
    by blast
  from h(1,2) have "H_mpo = Single ''object''" "eigs_fun = Single ''object''"
    by (simp_all add: total_library_def)
  with h(3,4) have "filter is_eig (calls (snd (mps_ground_state_cell total_library
          [Single ''h0'', Single ''h1''] (Single ''eigval_spa'') (Single ''eigvec_spa'')
          empty_world)))
        = [Eig (Single ''object'') 5 4 (Single ''object'')]"
    by (simp add: empty_world_def)
  with run show ?thesis by blast
qed

section \<open>The memory limit and the magic command\<close>

text \<open>
  Claim C4. The memory-limit cell is a guard around the environment. Where
  \<^verbatim>\<open>import resource\<close> raises \<^verbatim>\<open>ImportError\<close>, the cell prints the warning, calls
  nothing else and ends normally. Where the import succeeds, the cell calls
  \<^verbatim>\<open>resource.setrlimit\<close> exactly once, with \<^verbatim>\<open>RLIMIT_AS\<close>, the soft limit
  \<open>max_gb \<cdot> 2\<^sup>3\<^sup>0\<close> and the hard limit \<^verbatim>\<open>RLIM_INFINITY\<close>, and prints nothing. Nothing
  else of the world changes in either case.
\<close>

theorem memory_limit_cell_guard:
  "(resource_import lib = Inl ImportError \<longrightarrow>
      memory_limit_cell lib w
        = (Inr (), w\<lparr>calls := calls w @ [Import ''resource''],
                      raised := raised w @ [(Import ''resource'', ImportError)],
                      stdout := stdout w @ [[Str ''Warning: No memory limit set!'']]\<rparr>))
   \<and> (\<forall>m. resource_import lib = Inr m \<longrightarrow>
        (\<exists>r w'. memory_limit_cell lib w = (r, w')
           \<and> calls w' = calls w @
                [Import ''resource'', Setrlimit (RLIMIT_AS m) (2 * 2 ^ 30) (RLIM_INFINITY m)]
           \<and> stdout w' = stdout w
           \<and> (\<forall>v. returns lib (Setrlimit (RLIMIT_AS m) (2 * 2 ^ 30) (RLIM_INFINITY m)) = Inr v
                 \<longrightarrow> r = Inr () \<and> raised w' = raised w)))"
  by (auto simp: memory_limit_cell_def run_simps split: sum.splits)

theorem memory_limit_cell_guard_witness:
  "memory_limit_cell no_resource_library empty_world
     = (Inr (), \<lparr>calls = [Import ''resource''],
                 raised = [(Import ''resource'', ImportError)],
                 stdout = [[Str ''Warning: No memory limit set!'']]\<rparr>)
   \<and> (\<exists>r w'. memory_limit_cell total_library empty_world = (r, w')
         \<and> calls w' = [Import ''resource'', Setrlimit 9 2147483648 (- 1)]
         \<and> stdout w' = [] \<and> r = Inr () \<and> raised w' = [])"
  using memory_limit_cell_guard [of no_resource_library empty_world]
    memory_limit_cell_guard [of total_library empty_world]
  by (simp add: no_resource_library_def total_library_def empty_world_def)



section \<open>The diagnostics\<close>




section \<open>Counting the calls of a name\<close>







section \<open>The loops\<close>




section \<open>Where the notebook ends with an exception of its own operations\<close>





section \<open>The one exception handler\<close>




end
